theory Spec2Isabelle
  imports Complex_Main
begin

section \<open>Double-precision values\<close>

text \<open>
  The C++ sources compute every metric in \<^verbatim>\<open>double\<close>. The model keeps the shape
  of an IEEE value: a finite number, the two infinities and NaN. Finite values are
  exact rationals, so the arithmetic below is the IEEE arithmetic without its rounding
  error; what IEEE does on a zero divisor (NaN for 0/0, an infinity otherwise), and
  that NaN compares unequal to everything, is written out. Zero is the positive zero:
  every divisor of the sources is a sum of casted integers, which is never the
  negative zero.
\<close>

datatype double = Fin rat | PInf | NInf | NaN

definition double_of_int :: "int \<Rightarrow> double" where
  "double_of_int n = Fin (of_int n)"

fun d_add :: "double \<Rightarrow> double \<Rightarrow> double" where
  "d_add (Fin x) (Fin y) = Fin (x + y)"
| "d_add NaN _ = NaN"
| "d_add _ NaN = NaN"
| "d_add PInf NInf = NaN"
| "d_add NInf PInf = NaN"
| "d_add PInf _ = PInf"
| "d_add _ PInf = PInf"
| "d_add NInf _ = NInf"
| "d_add _ NInf = NInf"

fun d_mul :: "double \<Rightarrow> double \<Rightarrow> double" where
  "d_mul (Fin x) (Fin y) = Fin (x * y)"
| "d_mul NaN _ = NaN"
| "d_mul _ NaN = NaN"
| "d_mul PInf (Fin y) = (if y = 0 then NaN else if 0 < y then PInf else NInf)"
| "d_mul NInf (Fin y) = (if y = 0 then NaN else if 0 < y then NInf else PInf)"
| "d_mul (Fin x) PInf = (if x = 0 then NaN else if 0 < x then PInf else NInf)"
| "d_mul (Fin x) NInf = (if x = 0 then NaN else if 0 < x then NInf else PInf)"
| "d_mul PInf PInf = PInf"
| "d_mul NInf NInf = PInf"
| "d_mul PInf NInf = NInf"
| "d_mul NInf PInf = NInf"

fun d_div :: "double \<Rightarrow> double \<Rightarrow> double" where
  "d_div (Fin x) (Fin y) =
     (if y = 0 then (if x = 0 then NaN else if 0 < x then PInf else NInf)
      else Fin (x / y))"
| "d_div NaN _ = NaN"
| "d_div _ NaN = NaN"
| "d_div (Fin x) PInf = Fin 0"
| "d_div (Fin x) NInf = Fin 0"
| "d_div PInf (Fin y) = (if 0 \<le> y then PInf else NInf)"
| "d_div NInf (Fin y) = (if 0 \<le> y then NInf else PInf)"
| "d_div _ _ = NaN"

text \<open>The operator \<^verbatim>\<open>==\<close> on doubles: NaN equals nothing, itself included.\<close>

fun d_eq :: "double \<Rightarrow> double \<Rightarrow> bool" where
  "d_eq (Fin x) (Fin y) = (x = y)"
| "d_eq PInf PInf = True"
| "d_eq NInf NInf = True"
| "d_eq _ _ = False"

text \<open>The operator \<^verbatim>\<open>!=\<close>, the negation of \<^verbatim>\<open>==\<close> (true on NaN).\<close>

fun d_ne :: "double \<Rightarrow> double \<Rightarrow> bool" where
  "d_ne x y = (if d_eq x y then False else True)"

text \<open>\<^verbatim>\<open>round\<close> of \<^verbatim>\<open><cmath>\<close>: to the nearest integer, halves away from zero.\<close>

definition c_round :: "rat \<Rightarrow> int" where
  "c_round x = (if 0 \<le> x then \<lfloor>x + 1 / 2\<rfloor> else - \<lfloor>- x + 1 / 2\<rfloor>)"

fun d_round :: "double \<Rightarrow> double" where
  "d_round (Fin x) = Fin (of_int (c_round x))"
| "d_round PInf = PInf"
| "d_round NInf = NInf"
| "d_round NaN = NaN"

text \<open>\<^verbatim>\<open>pow(10.0f, (double)decimal_places)\<close>.\<close>

definition pow10 :: "int \<Rightarrow> rat" where
  "pow10 d = (if 0 \<le> d then 10 ^ nat d else 1 / 10 ^ nat (- d))"

text \<open>The unconstrained sentinel \<^verbatim>\<open>-1\<close> of the optional targets.\<close>

definition unconstrained :: double where
  "unconstrained = Fin (- 1)"

section \<open>Functions shared by both source files\<close>

text \<open>
  \<^verbatim>\<open>round_dp\<close>, identical in \<^verbatim>\<open>reverse_engineer.cpp\<close> and
  \<^verbatim>\<open>reverse_engineer_confusion_matrix.cpp\<close>.
\<close>

definition round_dp :: "double \<Rightarrow> int \<Rightarrow> double" where
  "round_dp number decimal_places =
     (let modifier = Fin (pow10 decimal_places)
      in d_div (d_round (d_mul number modifier)) modifier)"

text \<open>
  The static array \<^verbatim>\<open>min_max_values[4]\<close> of \<^verbatim>\<open>find_positives_vs_negatives\<close>:
  max correct, min incorrect, min correct, max incorrect, with \<^verbatim>\<open>-1\<close> for an
  absent entry. C++ \<^verbatim>\<open>int\<close> is modelled by \<^typ>\<open>int\<close>: signed overflow is
  undefined behaviour in the source and the counts of a run stay far below it.
\<close>

record min_max =
  max_correct :: int
  min_incorrect :: int
  min_correct :: int
  max_incorrect :: int

definition min_max_init :: min_max where
  "min_max_init =
     \<lparr>max_correct = - 1, min_incorrect = - 1, min_correct = - 1, max_incorrect = - 1\<rparr>"

text \<open>
  The loop \<^verbatim>\<open>for(int i = total_sample_size; i > 0; i--)\<close> of
  \<^verbatim>\<open>find_positives_vs_negatives\<close>, from counter \<open>i\<close> on, over the buffer.
\<close>

function fpn_loop :: "int \<Rightarrow> double \<Rightarrow> int \<Rightarrow> int \<Rightarrow> min_max \<Rightarrow> min_max" where
  "fpn_loop total_sample_size target_accuracy decimal_places i buf =
     (if 0 < i then
        (let correct_preds = i;
             incorrect_preds = total_sample_size - i;
             calculated_accuracy =
               d_div (double_of_int correct_preds) (double_of_int total_sample_size);
             buf' =
               (if d_eq (round_dp calculated_accuracy decimal_places) target_accuracy then
                  (if max_correct buf = - 1 then
                     buf\<lparr>max_correct := correct_preds, min_incorrect := incorrect_preds\<rparr>
                   else
                     buf\<lparr>min_correct := correct_preds, max_incorrect := incorrect_preds\<rparr>)
                else buf)
         in fpn_loop total_sample_size target_accuracy decimal_places (i - 1) buf')
      else buf)"
  by pat_completeness auto
termination
  by (relation "measure (\<lambda>(t, a, d, i, b). nat i)") auto

declare fpn_loop.simps [simp del]

text \<open>
  \<^verbatim>\<open>find_positives_vs_negatives\<close>. The static buffer is state that outlives the
  call, so it is an argument (its contents on entry) and the result (its contents on
  return, which the returned pointer shows to the caller).
\<close>

definition find_positives_vs_negatives :: "min_max \<Rightarrow> int \<Rightarrow> double \<Rightarrow> int \<Rightarrow> min_max" where
  "find_positives_vs_negatives buf total_sample_size target_accuracy decimal_places =
     fpn_loop total_sample_size target_accuracy decimal_places total_sample_size buf"

text \<open>
  The test of the loop body, \<^verbatim>\<open>round_dp(calculated_accuracy, decimal_places) ==
  target_accuracy\<close>, for the count \<open>c\<close>: the count \<open>c\<close> rounds to the target.
\<close>

definition accuracy_matches :: "int \<Rightarrow> double \<Rightarrow> int \<Rightarrow> int \<Rightarrow> bool" where
  "accuracy_matches total_sample_size target_accuracy decimal_places c =
     d_eq (round_dp (d_div (double_of_int c) (double_of_int total_sample_size)) decimal_places)
       target_accuracy"

text \<open>A confusion matrix \<^verbatim>\<open>std::array<int,4>\<close>: TP, FN, FP, TN.\<close>

type_synonym matrix = "int \<times> int \<times> int \<times> int"

text \<open>How a run ends early: the two \<^verbatim>\<open>exit(0)\<close> calls after a message.\<close>

datatype exit_reason = NoCombinations | UnknownMetric

section \<open>reverse\_engineer\_confusion\_matrix.cpp\<close>

text \<open>
  The transfer loop \<^verbatim>\<open>while (TP > 0 && TN < class_b_count)\<close> of \<^verbatim>\<open>find_matrices\<close>:
  the matrices it pushes, starting from the current one.
\<close>

function transfer_loop :: "int \<Rightarrow> int \<Rightarrow> int \<Rightarrow> int \<Rightarrow> int \<Rightarrow> matrix list" where
  "transfer_loop class_b_count TP FN FP TN =
     (if 0 < TP \<and> TN < class_b_count then
        (TP - 1, FN + 1, FP - 1, TN + 1)
          # transfer_loop class_b_count (TP - 1) (FN + 1) (FP - 1) (TN + 1)
      else [])"
  by pat_completeness auto
termination
  by (relation "measure (\<lambda>(b, tp, fn, fp, tn). nat tp)") auto

declare transfer_loop.simps [simp del]

text \<open>The number of passes of the outer loop, \<^verbatim>\<open>combinations\<close>.\<close>

definition combinations :: "min_max \<Rightarrow> int" where
  "combinations mm =
     (if min_correct mm \<noteq> - 1 then max_correct mm - min_correct mm + 1 else 1)"

text \<open>The base matrix of pass \<open>i\<close>.\<close>

definition base_matrix :: "int \<Rightarrow> int \<Rightarrow> min_max \<Rightarrow> int \<Rightarrow> matrix" where
  "base_matrix class_a_count class_b_count mm i =
     (let TP = (if max_correct mm - i < class_a_count then max_correct mm - i
                else class_a_count - i);
          FN = class_a_count - TP;
          FP = min_incorrect mm + i - FN;
          TN = class_b_count - FP
      in (TP, FN, FP, TN))"

text \<open>One pass of the outer loop: the base matrix, then the transfer loop.\<close>

definition find_matrices_pass :: "int \<Rightarrow> int \<Rightarrow> min_max \<Rightarrow> int \<Rightarrow> matrix list" where
  "find_matrices_pass class_a_count class_b_count mm i =
     (case base_matrix class_a_count class_b_count mm i of
        (TP, FN, FP, TN) \<Rightarrow> (TP, FN, FP, TN) # transfer_loop class_b_count TP FN FP TN)"

text \<open>The loop \<^verbatim>\<open>for (int i = 0; i < combinations; i++)\<close>, from \<open>i\<close> on.\<close>

function find_matrices_loop :: "int \<Rightarrow> int \<Rightarrow> min_max \<Rightarrow> int \<Rightarrow> int \<Rightarrow> matrix list" where
  "find_matrices_loop class_a_count class_b_count mm n i =
     (if i < n then
        find_matrices_pass class_a_count class_b_count mm i
          @ find_matrices_loop class_a_count class_b_count mm n (i + 1)
      else [])"
  by pat_completeness auto
termination
  by (relation "measure (\<lambda>(a, b, mm, n, i). nat (n - i))") auto

declare find_matrices_loop.simps [simp del]

definition find_matrices :: "int \<Rightarrow> int \<Rightarrow> min_max \<Rightarrow> matrix list" where
  "find_matrices class_a_count class_b_count mm =
     find_matrices_loop class_a_count class_b_count mm (combinations mm) 0"

text \<open>
  \<^verbatim>\<open>check_metric\<close> of this file: the filter for one metric, named by a string. An
  unknown name ends the run at the first matrix looked at.
\<close>

fun check_metric :: "matrix list \<Rightarrow> double \<Rightarrow> int \<Rightarrow> string \<Rightarrow> exit_reason + matrix list" where
  "check_metric [] target_value decimal_places metric_name = Inr []"
| "check_metric ((tp, fn, fp, tn) # matrices) target_value decimal_places metric_name =
     (let TP = double_of_int tp; FN = double_of_int fn;
          FP = double_of_int fp; TN = double_of_int tn;
          result =
            (if metric_name = ''sensitivity'' then
               Some (round_dp (d_div TP (d_add TP FN)) decimal_places)
             else if metric_name = ''specificity'' then
               Some (round_dp (d_div TN (d_add TN FP)) decimal_places)
             else if metric_name = ''f1'' then
               Some (round_dp (d_div (d_mul (Fin 2) TP)
                                 (d_add (d_add (d_mul (Fin 2) TP) FP) FN)) decimal_places)
             else if metric_name = ''precision'' then
               Some (round_dp (d_div TP (d_add TP FP)) decimal_places)
             else None)
      in case result of
           None \<Rightarrow> Inl UnknownMetric
         | Some r \<Rightarrow>
             (case check_metric matrices target_value decimal_places metric_name of
                Inl e \<Rightarrow> Inl e
              | Inr new_matrices \<Rightarrow>
                  Inr (if d_eq r target_value then (tp, fn, fp, tn) # new_matrices
                       else new_matrices)))"

text \<open>One optional filter of the pipeline: skipped when the target is \<^verbatim>\<open>-1\<close>.\<close>

definition filter_step ::
  "double \<Rightarrow> int \<Rightarrow> string \<Rightarrow> exit_reason + matrix list \<Rightarrow> exit_reason + matrix list" where
  "filter_step target decimal_places metric_name r =
     (case r of
        Inl e \<Rightarrow> Inl e
      | Inr matrices \<Rightarrow>
          (if d_ne target unconstrained
           then check_metric matrices target decimal_places metric_name
           else Inr matrices))"

definition reverse_engineer_confusion_matrices ::
  "int \<Rightarrow> int \<Rightarrow> int \<Rightarrow> double \<Rightarrow> double \<Rightarrow> double \<Rightarrow> double \<Rightarrow> double
     \<Rightarrow> exit_reason + matrix list" where
  "reverse_engineer_confusion_matrices class_a_count class_b_count decimal_places
       target_accuracy target_sensitivity target_specificity target_f1 target_precision =
     (let total_sample_size = class_a_count + class_b_count;
          min_max_values =
            find_positives_vs_negatives min_max_init total_sample_size target_accuracy
              decimal_places
      in if max_correct min_max_values = - 1 then Inl NoCombinations
         else
           filter_step target_precision decimal_places ''precision''
             (filter_step target_f1 decimal_places ''f1''
               (filter_step target_specificity decimal_places ''specificity''
                 (filter_step target_sensitivity decimal_places ''sensitivity''
                   (Inr (find_matrices class_a_count class_b_count min_max_values))))))"

section \<open>reverse\_engineer.cpp\<close>

text \<open>
  \<^verbatim>\<open>check_metric\<close> of this file: one matrix against the four targets at once.
  Each \<^verbatim>\<open>if\<close> of the source may clear \<^verbatim>\<open>meets_criteria\<close>.
\<close>

definition check_metric_csv ::
  "double \<Rightarrow> double \<Rightarrow> double \<Rightarrow> double \<Rightarrow> double \<Rightarrow> double \<Rightarrow> double \<Rightarrow> double \<Rightarrow> int
     \<Rightarrow> bool" where
  "check_metric_csv TP FN FP TN target_sensitivity target_specificity target_f1
       target_precision decimal_places =
     (let m0 = True;
          m1 = (if d_ne (round_dp (d_div TP (d_add TP FN)) decimal_places) target_sensitivity
                   \<or> d_eq target_sensitivity unconstrained
                then False else m0);
          m2 = (if d_ne (round_dp (d_div TN (d_add TN FP)) decimal_places) target_specificity
                   \<or> d_eq target_specificity unconstrained
                then False else m1);
          m3 = (if d_ne (round_dp (d_div (d_mul (Fin 2) TP)
                                     (d_add (d_add (d_mul (Fin 2) TP) FP) FN))
                           decimal_places) target_f1
                   \<or> d_eq target_f1 unconstrained
                then False else m2);
          m4 = (if d_ne (round_dp (d_div TP (d_add TP FP)) decimal_places) target_precision
                   \<or> d_eq target_precision unconstrained
                then False else m3)
      in m4)"

text \<open>
  The rows this file writes to the CSV. A row repeats the five targets after the
  matrix; they are the same in every row, so a row is modelled by its matrix.
\<close>

definition csv_row ::
  "double \<Rightarrow> double \<Rightarrow> double \<Rightarrow> double \<Rightarrow> int \<Rightarrow> matrix \<Rightarrow> matrix list" where
  "csv_row target_sensitivity target_specificity target_f1 target_precision decimal_places m =
     (case m of (TP, FN, FP, TN) \<Rightarrow>
        (if check_metric_csv (double_of_int TP) (double_of_int FN) (double_of_int FP)
              (double_of_int TN) target_sensitivity target_specificity target_f1
              target_precision decimal_places
         then [(TP, FN, FP, TN)] else []))"

function transfer_loop_csv ::
  "double \<Rightarrow> double \<Rightarrow> double \<Rightarrow> double \<Rightarrow> int \<Rightarrow> int \<Rightarrow> int \<Rightarrow> int \<Rightarrow> int \<Rightarrow> int
     \<Rightarrow> matrix list" where
  "transfer_loop_csv ts tsp tf tp decimal_places class_b_count TP FN FP TN =
     (if 0 < TP \<and> TN < class_b_count then
        csv_row ts tsp tf tp decimal_places (TP - 1, FN + 1, FP - 1, TN + 1)
          @ transfer_loop_csv ts tsp tf tp decimal_places class_b_count
              (TP - 1) (FN + 1) (FP - 1) (TN + 1)
      else [])"
  by pat_completeness auto
termination
  by (relation "measure (\<lambda>(ts, tsp, tf, tp, d, b, TP, FN, FP, TN). nat TP)") auto

declare transfer_loop_csv.simps [simp del]

definition find_matrices_pass_csv ::
  "double \<Rightarrow> double \<Rightarrow> double \<Rightarrow> double \<Rightarrow> int \<Rightarrow> int \<Rightarrow> int \<Rightarrow> min_max \<Rightarrow> int
     \<Rightarrow> matrix list" where
  "find_matrices_pass_csv ts tsp tf tp decimal_places class_a_count class_b_count mm i =
     (let TP = (if max_correct mm - i < class_a_count then max_correct mm - i
                else class_a_count - i);
          FN = class_a_count - TP;
          FP = min_incorrect mm + i - FN;
          TN = class_b_count - FP
      in csv_row ts tsp tf tp decimal_places (TP, FN, FP, TN)
           @ transfer_loop_csv ts tsp tf tp decimal_places class_b_count TP FN FP TN)"

function find_matrices_loop_csv ::
  "double \<Rightarrow> double \<Rightarrow> double \<Rightarrow> double \<Rightarrow> int \<Rightarrow> int \<Rightarrow> int \<Rightarrow> min_max \<Rightarrow> int \<Rightarrow> int
     \<Rightarrow> matrix list" where
  "find_matrices_loop_csv ts tsp tf tp decimal_places class_a_count class_b_count mm n i =
     (if i < n then
        find_matrices_pass_csv ts tsp tf tp decimal_places class_a_count class_b_count mm i
          @ find_matrices_loop_csv ts tsp tf tp decimal_places class_a_count class_b_count
              mm n (i + 1)
      else [])"
  by pat_completeness auto
termination
  by (relation "measure (\<lambda>(ts, tsp, tf, tp, d, a, b, mm, n, i). nat (n - i))") auto

declare find_matrices_loop_csv.simps [simp del]

definition find_matrices_csv ::
  "int \<Rightarrow> int \<Rightarrow> min_max \<Rightarrow> double \<Rightarrow> double \<Rightarrow> double \<Rightarrow> double \<Rightarrow> int \<Rightarrow> matrix list" where
  "find_matrices_csv class_a_count class_b_count mm target_sensitivity target_specificity
       target_f1 target_precision decimal_places =
     find_matrices_loop_csv target_sensitivity target_specificity target_f1 target_precision
       decimal_places class_a_count class_b_count mm (combinations mm) 0"

definition reverse_engineer_confusion_matrices_csv ::
  "int \<Rightarrow> int \<Rightarrow> int \<Rightarrow> double \<Rightarrow> double \<Rightarrow> double \<Rightarrow> double \<Rightarrow> double
     \<Rightarrow> exit_reason + matrix list" where
  "reverse_engineer_confusion_matrices_csv class_a_count class_b_count decimal_places
       target_accuracy target_sensitivity target_specificity target_f1 target_precision =
     (let total_sample_size = class_a_count + class_b_count;
          min_max_values =
            find_positives_vs_negatives min_max_init total_sample_size target_accuracy
              decimal_places
      in if max_correct min_max_values = - 1 then Inl NoCombinations
         else Inr (find_matrices_csv class_a_count class_b_count min_max_values
                     target_sensitivity target_specificity target_f1 target_precision
                     decimal_places))"

section \<open>Auxiliary notions for the statements\<close>

text \<open>
  The rounded value of one metric on one matrix, as \<^verbatim>\<open>check_metric\<close> computes it in
  either file, and the integer divisor of its formula.
\<close>

definition metric_value :: "string \<Rightarrow> int \<Rightarrow> matrix \<Rightarrow> double" where
  "metric_value metric_name decimal_places m =
     (case m of (tp, fn, fp, tn) \<Rightarrow>
        (let TP = double_of_int tp; FN = double_of_int fn;
             FP = double_of_int fp; TN = double_of_int tn
         in if metric_name = ''sensitivity'' then
              round_dp (d_div TP (d_add TP FN)) decimal_places
            else if metric_name = ''specificity'' then
              round_dp (d_div TN (d_add TN FP)) decimal_places
            else if metric_name = ''f1'' then
              round_dp (d_div (d_mul (Fin 2) TP)
                          (d_add (d_add (d_mul (Fin 2) TP) FP) FN)) decimal_places
            else round_dp (d_div TP (d_add TP FP)) decimal_places))"

definition metric_denominator :: "string \<Rightarrow> matrix \<Rightarrow> int" where
  "metric_denominator metric_name m =
     (case m of (tp, fn, fp, tn) \<Rightarrow>
        (if metric_name = ''sensitivity'' then tp + fn
         else if metric_name = ''specificity'' then tn + fp
         else if metric_name = ''f1'' then 2 * tp + fp + fn
         else tp + fp))"

section \<open>The range finder\<close>

lemma fpn_loop_stop: "\<not> 0 < i \<Longrightarrow> fpn_loop n t d i buf = buf"
  by (subst fpn_loop.simps) simp

lemma fpn_loop_skip:
  "0 < i \<Longrightarrow> \<not> accuracy_matches n t d i \<Longrightarrow> fpn_loop n t d i buf = fpn_loop n t d (i - 1) buf"
  by (subst fpn_loop.simps) (simp add: accuracy_matches_def)

lemma fpn_loop_first:
  "0 < i \<Longrightarrow> accuracy_matches n t d i \<Longrightarrow> max_correct buf = - 1 \<Longrightarrow>
   fpn_loop n t d i buf =
     fpn_loop n t d (i - 1) (buf\<lparr>max_correct := i, min_incorrect := n - i\<rparr>)"
  by (subst fpn_loop.simps) (simp add: accuracy_matches_def)

lemma fpn_loop_later:
  "0 < i \<Longrightarrow> accuracy_matches n t d i \<Longrightarrow> max_correct buf \<noteq> - 1 \<Longrightarrow>
   fpn_loop n t d i buf =
     fpn_loop n t d (i - 1) (buf\<lparr>min_correct := i, max_incorrect := n - i\<rparr>)"
  by (subst fpn_loop.simps) (simp add: accuracy_matches_def)

lemma fpn_loop_no_match:
  "(\<And>c. 0 < c \<Longrightarrow> c \<le> i \<Longrightarrow> \<not> accuracy_matches n t d c) \<Longrightarrow> fpn_loop n t d i buf = buf"
proof (induction k \<equiv> "nat i" arbitrary: i buf)
  case 0
  then show ?case by (simp add: fpn_loop_stop)
next
  case (Suc k)
  then have pos: "0 < i" and k: "k = nat (i - 1)" by linarith+
  have nm: "\<not> accuracy_matches n t d i" using Suc.prems pos by simp
  have "fpn_loop n t d (i - 1) buf = buf"
    using Suc.hyps(1) [OF k] Suc.prems by simp
  then show ?case using pos nm by (simp add: fpn_loop_skip)
qed

text \<open>Once the first pair is set, later passes leave it alone.\<close>

lemma fpn_loop_keeps_max:
  "max_correct buf \<noteq> - 1 \<Longrightarrow>
   max_correct (fpn_loop n t d i buf) = max_correct buf \<and>
   min_incorrect (fpn_loop n t d i buf) = min_incorrect buf"
proof (induction k \<equiv> "nat i" arbitrary: i buf)
  case 0
  then show ?case by (simp add: fpn_loop_stop)
next
  case (Suc k)
  then have pos: "0 < i" and k: "k = nat (i - 1)" by linarith+
  show ?case
  proof (cases "accuracy_matches n t d i")
    case True
    then show ?thesis
      using Suc.hyps(1) [OF k, of "buf\<lparr>min_correct := i, max_incorrect := n - i\<rparr>"] Suc.prems pos
      by (simp add: fpn_loop_later)
  next
    case False
    then show ?thesis using Suc.hyps(1) [OF k, of buf] Suc.prems pos
      by (simp add: fpn_loop_skip)
  qed
qed

text \<open>With the first pair set, the second pair ends at the lowest matching count.\<close>

lemma fpn_loop_min:
  "max_correct buf \<noteq> - 1 \<Longrightarrow> 0 < c \<Longrightarrow> c \<le> i \<Longrightarrow> accuracy_matches n t d c \<Longrightarrow>
   0 < min_correct (fpn_loop n t d i buf) \<and>
   min_correct (fpn_loop n t d i buf) \<le> c \<and>
   accuracy_matches n t d (min_correct (fpn_loop n t d i buf)) \<and>
   max_incorrect (fpn_loop n t d i buf) = n - min_correct (fpn_loop n t d i buf)"
proof (induction k \<equiv> "nat i" arbitrary: i buf c)
  case 0
  then show ?case by simp
next
  case (Suc k)
  then have pos: "0 < i" and k: "k = nat (i - 1)" by linarith+
  let ?buf' = "buf\<lparr>min_correct := i, max_incorrect := n - i\<rparr>"
  show ?case
  proof (cases "accuracy_matches n t d i")
    case False
    then have "c \<le> i - 1" using Suc.prems by (cases "c = i") auto
    then show ?thesis
      using Suc.hyps(1) [OF k, of buf c] Suc.prems pos False by (simp add: fpn_loop_skip)
  next
    case True
    have step: "fpn_loop n t d i buf = fpn_loop n t d (i - 1) ?buf'"
      using pos True Suc.prems(1) by (rule fpn_loop_later)
    have mc: "max_correct ?buf' \<noteq> - 1" using Suc.prems(1) by simp
    show ?thesis
    proof (cases "\<exists>c'. 0 < c' \<and> c' \<le> i - 1 \<and> accuracy_matches n t d c'")
      case True
      then obtain c' where c': "0 < c'" "c' \<le> i - 1" "accuracy_matches n t d c'" by blast
      have le: "min c c' \<le> i - 1" using c' by simp
      have "0 < min c c'" "accuracy_matches n t d (min c c')"
        using c' Suc.prems by (auto simp: min_def)
      from Suc.hyps(1) [OF k mc this(1) le this(2)] show ?thesis
        unfolding step by simp
    next
      case False
      then have "fpn_loop n t d (i - 1) ?buf' = ?buf'"
        by (intro fpn_loop_no_match) blast
      moreover have "c = i" using False Suc.prems by (cases "c = i") auto
      ultimately show ?thesis using step True pos by simp
    qed
  qed
qed

text \<open>From a buffer whose first pair is absent, the scan skips down to the highest
  matching count and stores it.\<close>

lemma fpn_loop_to_max:
  "max_correct buf = - 1 \<Longrightarrow> 0 < g \<Longrightarrow> g \<le> i \<Longrightarrow> accuracy_matches n t d g \<Longrightarrow>
   (\<And>c. g < c \<Longrightarrow> c \<le> i \<Longrightarrow> \<not> accuracy_matches n t d c) \<Longrightarrow>
   fpn_loop n t d i buf =
     fpn_loop n t d (g - 1) (buf\<lparr>max_correct := g, min_incorrect := n - g\<rparr>)"
proof (induction k \<equiv> "nat i" arbitrary: i)
  case 0
  then show ?case by simp
next
  case (Suc k)
  then have pos: "0 < i" and k: "k = nat (i - 1)" by linarith+
  show ?case
  proof (cases "i = g")
    case True
    then show ?thesis using Suc.prems by (simp add: fpn_loop_first)
  next
    case False
    then have lt: "g < i" using Suc.prems by simp
    then have nm: "\<not> accuracy_matches n t d i" using Suc.prems by simp
    have "fpn_loop n t d (i - 1) buf =
       fpn_loop n t d (g - 1) (buf\<lparr>max_correct := g, min_incorrect := n - g\<rparr>)"
      using Suc.hyps(1) [OF k] Suc.prems lt by simp
    then show ?thesis using pos nm by (simp add: fpn_loop_skip)
  qed
qed

text \<open>Among the matching counts of \<open>1..n\<close> there is a highest one.\<close>

lemma greatest_match:
  assumes "0 < c" "c \<le> n" "accuracy_matches n t d c"
  shows "\<exists>g. 0 < g \<and> g \<le> n \<and> accuracy_matches n t d g \<and> c \<le> g \<and>
           (\<forall>c'. g < c' \<and> c' \<le> n \<longrightarrow> \<not> accuracy_matches n t d c')"
proof -
  define S where "S = {x \<in> {1..n}. accuracy_matches n t d x}"
  have fin: "finite S" unfolding S_def by (rule finite_subset [of _ "{1..n}"]) auto
  have cin: "c \<in> S" using assms by (simp add: S_def)
  then have ne: "S \<noteq> {}" by blast
  have gin: "Max S \<in> S" using Max_in [OF fin ne] .
  have ge: "c \<le> Max S" using Max_ge [OF fin cin] .
  have top: "\<forall>c'. Max S < c' \<and> c' \<le> n \<longrightarrow> \<not> accuracy_matches n t d c'"
  proof (intro allI impI notI)
    fix c' assume a: "Max S < c' \<and> c' \<le> n" and m: "accuracy_matches n t d c'"
    have "0 < Max S" using gin by (simp add: S_def)
    then have "c' \<in> S" using a m by (simp add: S_def)
    then have "c' \<le> Max S" by (rule Max_ge [OF fin])
    then show False using a by simp
  qed
  have "0 < Max S \<and> Max S \<le> n \<and> accuracy_matches n t d (Max S)"
    using gin by (simp add: S_def)
  then show ?thesis using ge top by blast
qed

lemma fpn_fresh:
  assumes "0 < g" "g \<le> n" "accuracy_matches n t d g"
    and "\<forall>c. g < c \<and> c \<le> n \<longrightarrow> \<not> accuracy_matches n t d c"
  shows "find_positives_vs_negatives min_max_init n t d =
     fpn_loop n t d (g - 1)
       \<lparr>max_correct = g, min_incorrect = n - g, min_correct = - 1, max_incorrect = - 1\<rparr>"
proof -
  have 1: "max_correct min_max_init = - 1" by (simp add: min_max_init_def)
  have 2: "\<And>c. g < c \<Longrightarrow> c \<le> n \<Longrightarrow> \<not> accuracy_matches n t d c"
    using assms(4) by blast
  have "fpn_loop n t d n min_max_init =
      fpn_loop n t d (g - 1) (min_max_init\<lparr>max_correct := g, min_incorrect := n - g\<rparr>)"
    using 1 assms(1-3) 2 by (rule fpn_loop_to_max)
  then show ?thesis by (simp add: find_positives_vs_negatives_def min_max_init_def)
qed

lemma fpn_fresh_max:
  assumes "0 < g" "g \<le> n" "accuracy_matches n t d g"
    and "\<forall>c. g < c \<and> c \<le> n \<longrightarrow> \<not> accuracy_matches n t d c"
  shows "max_correct (find_positives_vs_negatives min_max_init n t d) = g \<and>
         min_incorrect (find_positives_vs_negatives min_max_init n t d) = n - g"
proof -
  let ?b = "\<lparr>max_correct = g, min_incorrect = n - g, min_correct = - 1, max_incorrect = - 1\<rparr>"
  have eq: "find_positives_vs_negatives min_max_init n t d = fpn_loop n t d (g - 1) ?b"
    using assms by (rule fpn_fresh)
  have "max_correct ?b \<noteq> - 1" using assms(1) by simp
  from fpn_loop_keeps_max [OF this, of n t d "g - 1"] show ?thesis
    by (simp only: eq) simp
qed

lemma fpn_fresh_single:
  assumes "0 < g" "g \<le> n" "accuracy_matches n t d g"
    and "\<forall>c. g < c \<and> c \<le> n \<longrightarrow> \<not> accuracy_matches n t d c"
    and "\<forall>c. 0 < c \<and> c < g \<longrightarrow> \<not> accuracy_matches n t d c"
  shows "find_positives_vs_negatives min_max_init n t d =
     \<lparr>max_correct = g, min_incorrect = n - g, min_correct = - 1, max_incorrect = - 1\<rparr>"
proof -
  let ?b = "\<lparr>max_correct = g, min_incorrect = n - g, min_correct = - 1, max_incorrect = - 1\<rparr>"
  have eq: "find_positives_vs_negatives min_max_init n t d = fpn_loop n t d (g - 1) ?b"
    using assms(1-4) by (rule fpn_fresh)
  have "\<And>c. 0 < c \<Longrightarrow> c \<le> g - 1 \<Longrightarrow> \<not> accuracy_matches n t d c"
    using assms(5) by simp
  then have "fpn_loop n t d (g - 1) ?b = ?b" by (rule fpn_loop_no_match)
  then show ?thesis by (simp only: eq)
qed

lemma fpn_fresh_min:
  assumes "0 < g" "g \<le> n" "accuracy_matches n t d g"
    and "\<forall>c. g < c \<and> c \<le> n \<longrightarrow> \<not> accuracy_matches n t d c"
    and "0 < c" "c < g" "accuracy_matches n t d c"
  shows "0 < min_correct (find_positives_vs_negatives min_max_init n t d) \<and>
     min_correct (find_positives_vs_negatives min_max_init n t d) \<le> c \<and>
     accuracy_matches n t d (min_correct (find_positives_vs_negatives min_max_init n t d)) \<and>
     max_incorrect (find_positives_vs_negatives min_max_init n t d) =
           n - min_correct (find_positives_vs_negatives min_max_init n t d)"
proof -
  let ?b = "\<lparr>max_correct = g, min_incorrect = n - g, min_correct = - 1, max_incorrect = - 1\<rparr>"
  have eq: "find_positives_vs_negatives min_max_init n t d = fpn_loop n t d (g - 1) ?b"
    using assms(1-4) by (rule fpn_fresh)
  have 1: "max_correct ?b \<noteq> - 1" using assms(1) by simp
  have 2: "c \<le> g - 1" using assms(6) by simp
  from fpn_loop_min [OF 1 assms(5) 2 assms(7)] show ?thesis
    by (simp only: eq)
qed

lemma fpn_fresh_none:
  assumes "\<forall>c. 0 < c \<and> c \<le> n \<longrightarrow> \<not> accuracy_matches n t d c"
  shows "find_positives_vs_negatives min_max_init n t d = min_max_init"
proof -
  have "\<And>c. 0 < c \<Longrightarrow> c \<le> n \<Longrightarrow> \<not> accuracy_matches n t d c" using assms by blast
  then show ?thesis unfolding find_positives_vs_negatives_def by (rule fpn_loop_no_match)
qed

subsection \<open>Concrete runs of the range finder\<close>

lemma fpn_20_075:
  "find_positives_vs_negatives min_max_init 20 (Fin (3 / 4)) 2 =
     \<lparr>max_correct = 15, min_incorrect = 5, min_correct = - 1, max_incorrect = - 1\<rparr>"
  by code_simp





subsection \<open>Range correctness\<close>

text \<open>What the first call of a run returns, in terms of the matching counts.\<close>

lemma first_call_range:
  assumes r: "r = find_positives_vs_negatives min_max_init n t d"
  shows "(\<forall>c\<in>{1..n}. accuracy_matches n t d c \<longrightarrow>
            max_correct r \<noteq> - 1 \<and> c \<le> max_correct r \<and>
            (if min_correct r = - 1 then c = max_correct r else min_correct r \<le> c)) \<and>
         (max_correct r \<noteq> - 1 \<longrightarrow>
            max_correct r \<in> {1..n} \<and> accuracy_matches n t d (max_correct r) \<and>
            min_incorrect r = n - max_correct r) \<and>
         (min_correct r \<noteq> - 1 \<longrightarrow>
            min_correct r \<in> {1..n} \<and> min_correct r < max_correct r \<and>
            accuracy_matches n t d (min_correct r) \<and>
            max_incorrect r = n - min_correct r)"
proof (cases "\<exists>c. 0 < c \<and> c \<le> n \<and> accuracy_matches n t d c")
  case False
  then have "\<forall>c. 0 < c \<and> c \<le> n \<longrightarrow> \<not> accuracy_matches n t d c" by blast
  then have "r = min_max_init" unfolding r by (rule fpn_fresh_none)
  then show ?thesis using False by (auto simp: min_max_init_def)
next
  case True
  then obtain c0 where c0: "0 < c0" "c0 \<le> n" "accuracy_matches n t d c0" by blast
  from greatest_match [OF c0] obtain g where
    g: "0 < g" "g \<le> n" "accuracy_matches n t d g"
      "\<forall>c. g < c \<and> c \<le> n \<longrightarrow> \<not> accuracy_matches n t d c"
    by blast
  have mx: "max_correct r = g" "min_incorrect r = n - g"
    using fpn_fresh_max [OF g] by (simp_all add: r)
  show ?thesis
  proof (cases "\<exists>c. 0 < c \<and> c < g \<and> accuracy_matches n t d c")
    case False
    then have "\<forall>c. 0 < c \<and> c < g \<longrightarrow> \<not> accuracy_matches n t d c" by blast
    from fpn_fresh_single [OF g this]
    have mn: "min_correct r = - 1" by (simp add: r)
    have only: "c = g" if "c \<in> {1..n}" "accuracy_matches n t d c" for c
    proof -
      have "\<not> c < g" using False that by auto
      moreover have "\<not> g < c" using g(4) that by auto
      ultimately show ?thesis by simp
    qed
    show ?thesis using mx mn g(1-3) only by auto
  next
    case True
    then obtain c1 where c1: "0 < c1" "c1 < g" "accuracy_matches n t d c1" by blast
    have low: "0 < min_correct r" "min_correct r \<le> c1"
      "accuracy_matches n t d (min_correct r)" "max_incorrect r = n - min_correct r"
      using fpn_fresh_min [OF g c1] by (simp_all add: r)
    have least: "min_correct r \<le> c" if "c \<in> {1..n}" "accuracy_matches n t d c" for c
    proof (cases "c < g")
      case True
      have "0 < c" using that by simp
      from fpn_fresh_min [OF g this True that(2)] show ?thesis by (simp add: r)
    next
      case False
      then show ?thesis using low(2) c1(2) by simp
    qed
    have below: "c \<le> g" if "c \<in> {1..n}" "accuracy_matches n t d c" for c
      using g(4) that by (cases "g < c") auto
    have "min_correct r \<noteq> - 1" using low(1) by simp
    then show ?thesis using mx low c1(2) g(1-3) least below by auto
  qed
qed




subsection \<open>No matching count\<close>



subsection \<open>The static buffer across calls\<close>




section \<open>The enumerator\<close>

subsection \<open>The transfer loop\<close>

lemma transfer_loop_stop:
  "\<not> (0 < TP \<and> TN < b) \<Longrightarrow> transfer_loop b TP FN FP TN = []"
  by (subst transfer_loop.simps) simp

lemma transfer_loop_step:
  "0 < TP \<Longrightarrow> TN < b \<Longrightarrow>
   transfer_loop b TP FN FP TN =
     (TP - 1, FN + 1, FP - 1, TN + 1) # transfer_loop b (TP - 1) (FN + 1) (FP - 1) (TN + 1)"
  by (subst transfer_loop.simps) simp

text \<open>The loop makes \<open>min TP (b - TN)\<close> passes (none when that is not positive), and
  pass \<open>k\<close> pushes the matrix moved by \<open>k + 1\<close>.\<close>

lemma transfer_loop_closed:
  "transfer_loop b TP FN FP TN =
     map (\<lambda>k. (TP - 1 - int k, FN + 1 + int k, FP - 1 - int k, TN + 1 + int k))
       [0..<nat (min TP (b - TN))]"
proof (induction j \<equiv> "nat (min TP (b - TN))" arbitrary: TP FN FP TN)
  case 0
  then have "\<not> (0 < TP \<and> TN < b)" by auto
  then show ?case using 0 by (simp add: transfer_loop_stop)
next
  case (Suc j)
  then have go: "0 < TP" "TN < b" by linarith+
  have j: "j = nat (min (TP - 1) (b - (TN + 1)))" using Suc.hyps(2) by linarith
  have n: "nat (min TP (b - TN)) = Suc j" using Suc.hyps(2) by simp
  have "map (\<lambda>k. (TP - 1 - int k, FN + 1 + int k, FP - 1 - int k, TN + 1 + int k)) [0..<Suc j]
      = (TP - 1, FN + 1, FP - 1, TN + 1)
        # map (\<lambda>k. (TP - 1 - 1 - int k, FN + 1 + 1 + int k, FP - 1 - 1 - int k,
                   TN + 1 + 1 + int k)) [0..<j]"
    by (simp add: upt_conv_Cons map_Suc_upt [symmetric] del: upt_Suc)
  then show ?case
    using Suc.hyps(1) [OF j, of "FN + 1" "FP - 1"] go
    by (simp only: n transfer_loop_step [OF go] j [symmetric])
qed

subsection \<open>The outer loop\<close>

lemma find_matrices_loop_stop:
  "\<not> i < n \<Longrightarrow> find_matrices_loop a b mm n i = []"
  by (subst find_matrices_loop.simps) simp

lemma find_matrices_loop_step:
  "i < n \<Longrightarrow> find_matrices_loop a b mm n i =
     find_matrices_pass a b mm i @ find_matrices_loop a b mm n (i + 1)"
  by (subst find_matrices_loop.simps) simp

lemma find_matrices_loop_closed:
  "find_matrices_loop a b mm n (int i) =
     concat (map (\<lambda>j. find_matrices_pass a b mm (int j)) [i..<nat n])"
proof (induction k \<equiv> "nat n - i" arbitrary: i)
  case 0
  then have "\<not> int i < n" by linarith
  then show ?case using 0 by (simp add: find_matrices_loop_stop)
next
  case (Suc k)
  then have lt: "int i < n" and k: "k = nat n - Suc i" by linarith+
  have lt': "i < nat n" using lt by linarith
  have "find_matrices_loop a b mm n (int i + 1) =
      concat (map (\<lambda>j. find_matrices_pass a b mm (int j)) [Suc i..<nat n])"
    using Suc.hyps(1) [OF k] by (simp add: add.commute)
  then show ?case
    by (simp add: find_matrices_loop_step [OF lt] upt_conv_Cons [OF lt'])
qed

lemma find_matrices_closed:
  "find_matrices a b mm =
     concat (map (\<lambda>j. find_matrices_pass a b mm (int j)) [0..<nat (combinations mm)])"
  using find_matrices_loop_closed [of a b mm "combinations mm" 0]
  by (simp add: find_matrices_def)

text \<open>Every matrix pushed in pass \<open>i\<close> is the base matrix of the pass moved by some
  \<open>k \<ge> 0\<close>, with \<open>k\<close> at most the base TP when a move happened.\<close>

lemma find_matrices_pass_mem:
  assumes "m \<in> set (find_matrices_pass a b mm i)"
    and "base_matrix a b mm i = (TP, FN, FP, TN)"
  shows "\<exists>k. 0 \<le> k \<and> (k = 0 \<or> (k \<le> TP \<and> TN + k \<le> b)) \<and>
           m = (TP - k, FN + k, FP - k, TN + k)"
proof (cases "m = (TP, FN, FP, TN)")
  case True
  then show ?thesis by (intro exI [of _ 0]) simp
next
  case False
  then have "m \<in> set (transfer_loop b TP FN FP TN)"
    using assms by (simp add: find_matrices_pass_def)
  then obtain j where j: "j < nat (min TP (b - TN))"
    "m = (TP - 1 - int j, FN + 1 + int j, FP - 1 - int j, TN + 1 + int j)"
    by (auto simp: transfer_loop_closed)
  show ?thesis
    using j by (intro exI [of _ "1 + int j"]) auto
qed

lemma find_matrices_mem:
  assumes "m \<in> set (find_matrices a b mm)"
  shows "\<exists>i. 0 \<le> i \<and> i < combinations mm \<and> m \<in> set (find_matrices_pass a b mm i)"
proof -
  from assms obtain j where "j < nat (combinations mm)"
    "m \<in> set (find_matrices_pass a b mm (int j))"
    by (auto simp: find_matrices_closed)
  then show ?thesis by (intro exI [of _ "int j"]) auto
qed


section \<open>Rounding of an accuracy\<close>

lemma pow10_pos: "0 < pow10 d"
  by (simp add: pow10_def)






section \<open>What the enumerator emits\<close>

subsection \<open>Concrete runs of the enumerator\<close>

lemma find_matrices_10_10:
  "find_matrices 10 10
     \<lparr>max_correct = 15, min_incorrect = 5, min_correct = - 1, max_incorrect = - 1\<rparr> =
   [(10, 0, 5, 5), (9, 1, 4, 6), (8, 2, 3, 7), (7, 3, 2, 8), (6, 4, 1, 9), (5, 5, 0, 10)]"
  by code_simp


subsection \<open>Accuracy reproduction\<close>



subsection \<open>The matrix invariant\<close>

text \<open>What does hold of the fields, for the array of a first call: FN, FP and TN are
  never negative, and TP is negative only on the base matrix of a pass whose number
  exceeds \<open>class_a_count\<close>.\<close>

lemma find_matrices_fields:
  assumes a: "0 < class_a_count" and b: "0 < class_b_count"
    and mm: "mm = find_positives_vs_negatives min_max_init (class_a_count + class_b_count) t d"
    and found: "max_correct mm \<noteq> - 1"
    and m: "(TP, FN, FP, TN) \<in> set (find_matrices class_a_count class_b_count mm)"
  shows "0 \<le> FN \<and> 0 \<le> FP \<and> 0 \<le> TN \<and>
         (min_correct mm = - 1 \<or> max_correct mm - min_correct mm \<le> class_a_count
            \<longrightarrow> 0 \<le> TP)"
proof -
  let ?n = "class_a_count + class_b_count"
  note range = first_call_range [OF mm]
  have g: "1 \<le> max_correct mm" "max_correct mm \<le> ?n"
    "min_incorrect mm = ?n - max_correct mm"
    using range found by auto
  have l: "min_correct mm \<noteq> - 1 \<longrightarrow> 1 \<le> min_correct mm"
    using range by auto
  from find_matrices_mem [OF m] obtain i where
    i: "0 \<le> i" "i < combinations mm"
      "(TP, FN, FP, TN) \<in> set (find_matrices_pass class_a_count class_b_count mm i)"
    by blast
  have i_le: "i \<le> max_correct mm - 1"
    "min_correct mm \<noteq> - 1 \<longrightarrow> i \<le> max_correct mm - min_correct mm"
    using i(2) g(1) l by (auto simp: combinations_def split: if_splits)
  obtain TP0 FN0 FP0 TN0 where
    base: "base_matrix class_a_count class_b_count mm i = (TP0, FN0, FP0, TN0)"
    by (cases "base_matrix class_a_count class_b_count mm i") auto
  from find_matrices_pass_mem [OF i(3) base] obtain k where
    k: "0 \<le> k" "k = 0 \<or> (k \<le> TP0 \<and> TN0 + k \<le> class_b_count)"
      "TP = TP0 - k" "FN = FN0 + k" "FP = FP0 - k" "TN = TN0 + k"
    by auto
  have b0: "0 \<le> FN0" "0 \<le> FP0" "0 \<le> TN0" "FP0 + TN0 = class_b_count"
    "max_correct mm - i < class_a_count \<or> i \<le> class_a_count \<longrightarrow> 0 \<le> TP0"
    using base g i(1) i_le(1) a b
    by (auto simp: base_matrix_def Let_def split: if_splits)
  have "0 \<le> FN" "0 \<le> TN" using k b0 by auto
  moreover have "0 \<le> FP" using k b0 by auto
  moreover have "0 \<le> TP"
    if "min_correct mm = - 1 \<or> max_correct mm - min_correct mm \<le> class_a_count"
  proof -
    have "i \<le> class_a_count"
      using that i(1,2) i_le(2) a by (auto simp: combinations_def split: if_splits)
    then have "0 \<le> TP0" using b0(5) by simp
    then show ?thesis using k by auto
  qed
  ultimately show ?thesis by blast
qed

text \<open>
  Claim C2 does not hold of the code. For \<open>class_a_count = 1\<close>, \<open>class_b_count = 3\<close>,
  \<open>decimal_places = 0\<close> and the target accuracy 1, the counts 4, 3 and 2 of 4 round to
  the target, the outer loop makes three passes, and the base matrix of the third pass
  has \<open>TP = class_a_count - 2 = - 1\<close>: the program takes \<open>class_a_count - i\<close> for TP
  whenever \<open>max_correct - i\<close> is not below \<open>class_a_count\<close>, also when \<open>i\<close> is above
  \<open>class_a_count\<close>, and pushes the base matrix unguarded. The two sums of the claim
  hold of every pushed matrix (lemma \<open>find_matrices_sums\<close>), and no field but TP
  is ever negative (lemma \<open>find_matrices_fields\<close>).
\<close>

theorem find_matrices_negative_TP:
  "find_positives_vs_negatives min_max_init (1 + 3) (Fin 1) 0 =
     \<lparr>max_correct = 4, min_incorrect = 0, min_correct = 2, max_incorrect = 2\<rparr> \<and>
   find_matrices 1 3
     \<lparr>max_correct = 4, min_incorrect = 0, min_correct = 2, max_incorrect = 2\<rparr> =
     [(1, 0, 0, 3), (0, 1, 0, 3), (- 1, 2, 0, 3)] \<and>
   reverse_engineer_confusion_matrices 1 3 0 (Fin 1)
     unconstrained unconstrained unconstrained unconstrained =
     Inr [(1, 0, 0, 3), (0, 1, 0, 3), (- 1, 2, 0, 3)]"
  by code_simp

subsection \<open>The worked example\<close>

text \<open>
  Claim C3, as the code has it. For \<open>class_a_count = 10\<close>, \<open>class_b_count = 10\<close>,
  \<open>decimal_places = 2\<close>, the target accuracy 0.75 and every other target
  unconstrained, the range finder returns \<open>max_correct = 15\<close> and \<open>min_incorrect = 5\<close>
  with \<open>min_correct\<close> and \<open>max_incorrect\<close> absent, and the program of
  \<^verbatim>\<open>reverse_engineer_confusion_matrix.cpp\<close> ends with six matrices, without a
  duplicate: the base matrix (10,0,5,5) and the five moved ones, the last of which,
  (5,5,0,10), is pushed by the pass that makes TN reach \<open>class_b_count\<close>.
\<close>

theorem worked_example:
  "find_positives_vs_negatives min_max_init (10 + 10) (Fin (3 / 4)) 2 =
     \<lparr>max_correct = 15, min_incorrect = 5, min_correct = - 1, max_incorrect = - 1\<rparr> \<and>
   find_matrices 10 10
     (find_positives_vs_negatives min_max_init (10 + 10) (Fin (3 / 4)) 2) =
     [(10, 0, 5, 5), (9, 1, 4, 6), (8, 2, 3, 7), (7, 3, 2, 8), (6, 4, 1, 9), (5, 5, 0, 10)] \<and>
   distinct (find_matrices 10 10
     (find_positives_vs_negatives min_max_init (10 + 10) (Fin (3 / 4)) 2)) \<and>
   reverse_engineer_confusion_matrices 10 10 2 (Fin (3 / 4))
     unconstrained unconstrained unconstrained unconstrained =
     Inr [(10, 0, 5, 5), (9, 1, 4, 6), (8, 2, 3, 7), (7, 3, 2, 8), (6, 4, 1, 9), (5, 5, 0, 10)]"
  by code_simp

text \<open>
  Claim C3 as stated fails twice: \<open>min_correct\<close> is absent, not 15, and the enumeration
  holds a sixth matrix, (5,5,0,10), beyond the five the claim lists.
\<close>

theorem worked_example_counterexample:
  "min_correct (find_positives_vs_negatives min_max_init (10 + 10) (Fin (3 / 4)) 2) \<noteq> 15 \<and>
   (5, 5, 0, 10) \<in> set (find_matrices 10 10
     (find_positives_vs_negatives min_max_init (10 + 10) (Fin (3 / 4)) 2)) \<and>
   find_matrices 10 10
     (find_positives_vs_negatives min_max_init (10 + 10) (Fin (3 / 4)) 2) \<noteq>
     [(10, 0, 5, 5), (9, 1, 4, 6), (8, 2, 3, 7), (7, 3, 2, 8), (6, 4, 1, 9)]"
  by code_simp

section \<open>The loops of reverse\_engineer.cpp\<close>

lemma transfer_loop_csv_stop:
  "\<not> (0 < TP \<and> TN < b) \<Longrightarrow> transfer_loop_csv ts tsp tf tp d b TP FN FP TN = []"
  by (subst transfer_loop_csv.simps) auto

lemma transfer_loop_csv_step:
  "0 < TP \<Longrightarrow> TN < b \<Longrightarrow>
   transfer_loop_csv ts tsp tf tp d b TP FN FP TN =
     csv_row ts tsp tf tp d (TP - 1, FN + 1, FP - 1, TN + 1)
       @ transfer_loop_csv ts tsp tf tp d b (TP - 1) (FN + 1) (FP - 1) (TN + 1)"
  by (subst transfer_loop_csv.simps) simp

text \<open>The transfer loop of this file writes the rows of the matrices that the transfer
  loop of the other file pushes.\<close>

lemma transfer_loop_csv_rows:
  "transfer_loop_csv ts tsp tf tp d b TP FN FP TN =
     concat (map (csv_row ts tsp tf tp d) (transfer_loop b TP FN FP TN))"
proof (induction j \<equiv> "nat (min TP (b - TN))" arbitrary: TP FN FP TN)
  case 0
  then have "\<not> (0 < TP \<and> TN < b)" by auto
  then show ?case by (simp add: transfer_loop_stop transfer_loop_csv_stop)
next
  case (Suc j)
  then have go: "0 < TP" "TN < b" by linarith+
  have j: "j = nat (min (TP - 1) (b - (TN + 1)))" using Suc.hyps(2) by linarith
  show ?case
    using Suc.hyps(1) [OF j, of "FN + 1" "FP - 1"]
    by (simp add: transfer_loop_step [OF go] transfer_loop_csv_step [OF go])
qed

lemma find_matrices_pass_csv_rows:
  "find_matrices_pass_csv ts tsp tf tp d a b mm i =
     concat (map (csv_row ts tsp tf tp d) (find_matrices_pass a b mm i))"
  by (simp add: find_matrices_pass_csv_def find_matrices_pass_def base_matrix_def Let_def
      transfer_loop_csv_rows)

lemma find_matrices_loop_csv_stop:
  "\<not> i < n \<Longrightarrow> find_matrices_loop_csv ts tsp tf tp d a b mm n i = []"
  by (subst find_matrices_loop_csv.simps) simp

lemma find_matrices_loop_csv_step:
  "i < n \<Longrightarrow> find_matrices_loop_csv ts tsp tf tp d a b mm n i =
     find_matrices_pass_csv ts tsp tf tp d a b mm i
       @ find_matrices_loop_csv ts tsp tf tp d a b mm n (i + 1)"
  by (subst find_matrices_loop_csv.simps) simp

lemma find_matrices_loop_csv_closed:
  "find_matrices_loop_csv ts tsp tf tp d a b mm n (int i) =
     concat (map (\<lambda>j. find_matrices_pass_csv ts tsp tf tp d a b mm (int j)) [i..<nat n])"
proof (induction k \<equiv> "nat n - i" arbitrary: i)
  case 0
  then have "\<not> int i < n" by linarith
  then show ?case using 0 by (simp add: find_matrices_loop_csv_stop)
next
  case (Suc k)
  then have lt: "int i < n" and k: "k = nat n - Suc i" by linarith+
  have lt': "i < nat n" using lt by linarith
  have "find_matrices_loop_csv ts tsp tf tp d a b mm n (int i + 1) =
      concat (map (\<lambda>j. find_matrices_pass_csv ts tsp tf tp d a b mm (int j)) [Suc i..<nat n])"
    using Suc.hyps(1) [OF k] by (simp add: add.commute)
  then show ?case
    by (simp add: find_matrices_loop_csv_step [OF lt] upt_conv_Cons [OF lt'])
qed

lemma find_matrices_csv_closed:
  "find_matrices_csv a b mm ts tsp tf tp d =
     concat (map (\<lambda>j. find_matrices_pass_csv ts tsp tf tp d a b mm (int j))
       [0..<nat (combinations mm)])"
  using find_matrices_loop_csv_closed [of ts tsp tf tp d a b mm "combinations mm" 0]
  by (simp add: find_matrices_csv_def)

text \<open>The fused loop writes the rows of the matrices the other file enumerates, in the
  same order.\<close>

lemma concat_map_blocks:
  "concat (map (\<lambda>j. concat (map f (g j))) xs) = concat (map f (concat (map g xs)))"
  by (induction xs) simp_all

lemma find_matrices_csv_rows:
  "find_matrices_csv a b mm ts tsp tf tp d =
     concat (map (csv_row ts tsp tf tp d) (find_matrices a b mm))"
  by (simp only: find_matrices_csv_closed find_matrices_closed find_matrices_pass_csv_rows
      concat_map_blocks)

lemma combinations_first_call:
  "1 \<le> combinations (find_positives_vs_negatives min_max_init n t d)"
  using first_call_range [OF refl, of n t d] by (auto simp: combinations_def)

section \<open>Termination of the enumeration\<close>

text \<open>
  Claim C10. Both enumerations are total functions: the loops are defined by recursion
  whose termination is proved, on \<open>combinations - i\<close> for the outer loop and on TP for
  the transfer loop. The outer loop makes exactly \<open>combinations\<close> passes, that is
  \<open>max_correct - min_correct + 1\<close> of them, or one when \<open>min_correct\<close> is absent (at
  least one for an array of a first call of the range finder); pass \<open>j\<close> contributes
  its base matrix and its transfer loop. A transfer loop makes \<open>min TP (b - TN)\<close>
  passes, none when that is not positive, so at most TP of them, and its pass \<open>k\<close>
  lowers TP to \<open>TP - 1 - k\<close>.
\<close>

theorem enumeration_terminates:
  "find_matrices a b mm =
     concat (map (\<lambda>j. find_matrices_pass a b mm (int j)) [0..<nat (combinations mm)]) \<and>
   find_matrices_csv a b mm ts tsp tf tp d =
     concat (map (\<lambda>j. find_matrices_pass_csv ts tsp tf tp d a b mm (int j))
       [0..<nat (combinations mm)]) \<and>
   combinations mm =
     (if min_correct mm \<noteq> - 1 then max_correct mm - min_correct mm + 1 else 1) \<and>
   1 \<le> combinations (find_positives_vs_negatives min_max_init n t d) \<and>
   find_matrices_pass a b mm i =
     base_matrix a b mm i
       # (case base_matrix a b mm i of (TP, FN, FP, TN) \<Rightarrow> transfer_loop b TP FN FP TN) \<and>
   transfer_loop b TP FN FP TN =
     map (\<lambda>k. (TP - 1 - int k, FN + 1 + int k, FP - 1 - int k, TN + 1 + int k))
       [0..<nat (min TP (b - TN))] \<and>
   transfer_loop_csv ts tsp tf tp d b TP FN FP TN =
     concat (map (\<lambda>k. csv_row ts tsp tf tp d
                (TP - 1 - int k, FN + 1 + int k, FP - 1 - int k, TN + 1 + int k))
       [0..<nat (min TP (b - TN))]) \<and>
   length (transfer_loop b TP FN FP TN) \<le> nat TP"
proof -
  have 1: "find_matrices_pass a b mm i =
     base_matrix a b mm i
       # (case base_matrix a b mm i of (TP, FN, FP, TN) \<Rightarrow> transfer_loop b TP FN FP TN)"
    by (cases "base_matrix a b mm i") (simp add: find_matrices_pass_def)
  have 2: "transfer_loop_csv ts tsp tf tp d b TP FN FP TN =
     concat (map (\<lambda>k. csv_row ts tsp tf tp d
                (TP - 1 - int k, FN + 1 + int k, FP - 1 - int k, TN + 1 + int k))
       [0..<nat (min TP (b - TN))])"
    by (simp add: transfer_loop_csv_rows transfer_loop_closed comp_def)
  have 3: "length (transfer_loop b TP FN FP TN) \<le> nat TP"
    by (simp add: transfer_loop_closed)
  show ?thesis
    using find_matrices_closed [of a b mm] find_matrices_csv_closed [of a b mm ts tsp tf tp d]
      combinations_first_call [of n t d] transfer_loop_closed [of b TP FN FP TN] 1 2 3
    by (simp only: combinations_def)
qed

section \<open>The metric filters\<close>

lemma round_dp_zero_divisor: "\<not> d_eq (round_dp (d_div (Fin x) (Fin 0)) d) (Fin t)"
  using pow10_pos [of d] by (simp add: round_dp_def Let_def)

lemma round_dp_not_finite:
  "round_dp PInf d = PInf" "round_dp NInf d = NInf" "round_dp NaN d = NaN"
  using pow10_pos [of d] by (simp_all add: round_dp_def Let_def)

lemma metric_value_sensitivity:
  "metric_value ''sensitivity'' d (tp, fn, fp, tn) =
     round_dp (d_div (Fin (of_int tp)) (Fin (of_int (tp + fn)))) d"
  by (simp add: metric_value_def double_of_int_def)

lemma metric_value_specificity:
  "metric_value ''specificity'' d (tp, fn, fp, tn) =
     round_dp (d_div (Fin (of_int tn)) (Fin (of_int (tn + fp)))) d"
  by (simp add: metric_value_def double_of_int_def)

lemma metric_value_f1:
  "metric_value ''f1'' d (tp, fn, fp, tn) =
     round_dp (d_div (Fin (of_int (2 * tp))) (Fin (of_int (2 * tp + fp + fn)))) d"
  by (simp add: metric_value_def double_of_int_def)

lemma metric_value_precision:
  "metric_value ''precision'' d (tp, fn, fp, tn) =
     round_dp (d_div (Fin (of_int tp)) (Fin (of_int (tp + fp)))) d"
  by (simp add: metric_value_def double_of_int_def)

lemma metric_value_zero_divisor:
  assumes "metric_name \<in> {''sensitivity'', ''specificity'', ''f1'', ''precision''}"
    and "metric_denominator metric_name m = 0"
  shows "\<not> d_eq (metric_value metric_name d m) (Fin t)"
proof -
  obtain tp fn fp tn where m: "m = (tp, fn, fp, tn)" by (cases m) auto
  consider "metric_name = ''sensitivity''" | "metric_name = ''specificity''"
    | "metric_name = ''f1''" | "metric_name = ''precision''"
    using assms(1) by blast
  then show ?thesis
  proof cases
    case 1
    then have "tp + fn = 0" using assms(2) by (simp add: m metric_denominator_def)
    then show ?thesis
      unfolding 1 m metric_value_sensitivity by (simp add: round_dp_not_finite)
  next
    case 2
    then have "tn + fp = 0" using assms(2) by (simp add: m metric_denominator_def)
    then show ?thesis
      unfolding 2 m metric_value_specificity by (simp add: round_dp_not_finite)
  next
    case 3
    then have "2 * tp + fp + fn = 0" using assms(2) by (simp add: m metric_denominator_def)
    then show ?thesis
      unfolding 3 m metric_value_f1 by (simp add: round_dp_not_finite)
  next
    case 4
    then have "tp + fp = 0" using assms(2) by (simp add: m metric_denominator_def)
    then show ?thesis
      unfolding 4 m metric_value_precision by (simp add: round_dp_not_finite)
  qed
qed

text \<open>For a metric it knows, the filter of
  \<^verbatim>\<open>reverse_engineer_confusion_matrix.cpp\<close> keeps the matrices whose rounded metric
  equals the target, in their order.\<close>

lemma check_metric_filter:
  assumes "metric_name \<in> {''sensitivity'', ''specificity'', ''f1'', ''precision''}"
  shows "check_metric matrices target d metric_name =
     Inr (filter (\<lambda>m. d_eq (metric_value metric_name d m) target) matrices)"
proof (induction matrices)
  case Nil
  then show ?case by simp
next
  case (Cons m matrices)
  obtain tp fn fp tn where m: "m = (tp, fn, fp, tn)" by (cases m) auto
  show ?case
    using assms Cons unfolding m
    by (auto simp: metric_value_def Let_def)
qed

text \<open>The check of \<^verbatim>\<open>reverse_engineer.cpp\<close>: every metric must equal its target, and
  no target may be the sentinel.\<close>

lemma check_metric_csv_iff:
  "check_metric_csv (double_of_int tp) (double_of_int fn) (double_of_int fp) (double_of_int tn)
      ts tsp tf tpr d \<longleftrightarrow>
   (d_eq (metric_value ''sensitivity'' d (tp, fn, fp, tn)) ts \<and> \<not> d_eq ts unconstrained) \<and>
   (d_eq (metric_value ''specificity'' d (tp, fn, fp, tn)) tsp \<and> \<not> d_eq tsp unconstrained) \<and>
   (d_eq (metric_value ''f1'' d (tp, fn, fp, tn)) tf \<and> \<not> d_eq tf unconstrained) \<and>
   (d_eq (metric_value ''precision'' d (tp, fn, fp, tn)) tpr \<and> \<not> d_eq tpr unconstrained)"
  by (simp add: check_metric_csv_def metric_value_def Let_def)

lemma check_metric_csv_unconstrained:
  "d_eq ts unconstrained \<or> d_eq tsp unconstrained \<or> d_eq tf unconstrained \<or>
     d_eq tpr unconstrained \<Longrightarrow>
   \<not> check_metric_csv (double_of_int tp) (double_of_int fn) (double_of_int fp)
        (double_of_int tn) ts tsp tf tpr d"
  by (auto simp: check_metric_csv_iff)

lemma filter_step_unconstrained: "filter_step unconstrained d metric_name r = r"
  by (cases r) (simp_all add: filter_step_def unconstrained_def)

lemma filter_step_constrained:
  assumes "d_ne target unconstrained"
    and "metric_name \<in> {''sensitivity'', ''specificity'', ''f1'', ''precision''}"
  shows "filter_step target d metric_name (Inr matrices) =
     Inr (filter (\<lambda>m. d_eq (metric_value metric_name d m) target) matrices)"
  using assms(1) by (simp add: filter_step_def check_metric_filter [OF assms(2)] split: if_splits)

lemma csv_rows_filter:
  "concat (map (csv_row ts tsp tf tpr d) matrices) =
     filter (\<lambda>m. case m of (tp, fn, fp, tn) \<Rightarrow>
        check_metric_csv (double_of_int tp) (double_of_int fn) (double_of_int fp)
          (double_of_int tn) ts tsp tf tpr d) matrices"
  by (induction matrices) (auto simp: csv_row_def)

text \<open>With all four optional targets given, the two programs end with the same
  matrices in the same order.\<close>

lemma pipelines_agree_when_constrained:
  assumes c: "d_ne ts unconstrained" "d_ne tsp unconstrained" "d_ne tf unconstrained"
    "d_ne tpr unconstrained"
  shows "reverse_engineer_confusion_matrices_csv a b d t ts tsp tf tpr =
         reverse_engineer_confusion_matrices a b d t ts tsp tf tpr"
proof -
  let ?mm = "find_positives_vs_negatives min_max_init (a + b) t d"
  let ?ms = "find_matrices a b ?mm"
  let ?P = "\<lambda>name target m. d_eq (metric_value name d m) target"
  have two: "filter_step tpr d ''precision''
       (filter_step tf d ''f1''
         (filter_step tsp d ''specificity''
           (filter_step ts d ''sensitivity'' (Inr ?ms)))) =
     Inr (filter (?P ''precision'' tpr) (filter (?P ''f1'' tf)
       (filter (?P ''specificity'' tsp) (filter (?P ''sensitivity'' ts) ?ms))))"
    by (simp only: filter_step_constrained [OF c(1)] filter_step_constrained [OF c(2)]
        filter_step_constrained [OF c(3)] filter_step_constrained [OF c(4)]
        insertI1 insertI2)
  have nc: "\<not> d_eq ts unconstrained" "\<not> d_eq tsp unconstrained" "\<not> d_eq tf unconstrained"
    "\<not> d_eq tpr unconstrained"
    using c by (simp_all split: if_splits)
  have one: "find_matrices_csv a b ?mm ts tsp tf tpr d =
     filter (?P ''precision'' tpr) (filter (?P ''f1'' tf)
       (filter (?P ''specificity'' tsp) (filter (?P ''sensitivity'' ts) ?ms)))"
    unfolding find_matrices_csv_rows csv_rows_filter filter_filter
    by (rule filter_cong [OF refl]) (auto simp: check_metric_csv_iff nc)
  show ?thesis
    by (simp only: reverse_engineer_confusion_matrices_csv_def
        reverse_engineer_confusion_matrices_def Let_def one two)
qed

section \<open>Undefined metrics\<close>

text \<open>
  Claim C6. A matrix on which the divisor of a metric is zero is never kept under a
  finite target for that metric: the division gives NaN or an infinity, rounding keeps
  it, and neither equals a finite number. The filter of
  \<^verbatim>\<open>reverse_engineer_confusion_matrix.cpp\<close> returns normally (no \<^verbatim>\<open>exit\<close>) without
  the matrix, and the check of \<^verbatim>\<open>reverse_engineer.cpp\<close> rejects the matrix, whatever
  the finite targets of the other metrics are.
\<close>

theorem undefined_metric_never_matches:
  assumes "metric_name \<in> {''sensitivity'', ''specificity'', ''f1'', ''precision''}"
    and "metric_denominator metric_name (TP, FN, FP, TN) = 0"
  shows "(\<exists>kept. check_metric matrices (Fin x) d metric_name = Inr kept \<and>
            (TP, FN, FP, TN) \<notin> set kept) \<and>
         \<not> check_metric_csv (double_of_int TP) (double_of_int FN) (double_of_int FP)
              (double_of_int TN) (Fin x1) (Fin x2) (Fin x3) (Fin x4) d"
proof -
  have nm: "\<not> d_eq (metric_value metric_name d (TP, FN, FP, TN)) (Fin t)" for t
    using assms by (rule metric_value_zero_divisor)
  have "(TP, FN, FP, TN) \<notin>
      set (filter (\<lambda>m. d_eq (metric_value metric_name d m) (Fin x)) matrices)"
    using nm by simp
  then have 1: "\<exists>kept. check_metric matrices (Fin x) d metric_name = Inr kept \<and>
      (TP, FN, FP, TN) \<notin> set kept"
    by (simp add: check_metric_filter [OF assms(1)])
  have 2: "\<not> check_metric_csv (double_of_int TP) (double_of_int FN) (double_of_int FP)
      (double_of_int TN) (Fin x1) (Fin x2) (Fin x3) (Fin x4) d"
    using assms(1) nm unfolding check_metric_csv_iff by blast
  show ?thesis using 1 2 by blast
qed

theorem undefined_metric_never_matches_witness:
  "metric_denominator ''precision'' (0, 1, 0, 3) = 0 \<and>
   check_metric [(1, 0, 0, 3), (0, 1, 0, 3)] (Fin 1) 0 ''precision'' = Inr [(1, 0, 0, 3)] \<and>
   ((0, 1, 0, 3) :: matrix) \<notin> set [(1, 0, 0, 3)] \<and>
   \<not> check_metric_csv (double_of_int 0) (double_of_int 1) (double_of_int 0) (double_of_int 3)
       (Fin 0) (Fin 1) (Fin 0) (Fin 1) 0"
proof -
  have den: "metric_denominator ''precision'' (0, 1, 0, 3) = 0"
    by (simp add: metric_denominator_def)
  have name: "''precision'' \<in> {''sensitivity'', ''specificity'', ''f1'', ''precision''}"
    by simp
  have ev: "check_metric [(1, 0, 0, 3), (0, 1, 0, 3)] (Fin 1) 0 ''precision'' =
      Inr [(1, 0, 0, 3)]"
    by code_simp
  from undefined_metric_never_matches [OF name den,
      where matrices = "[(1, 0, 0, 3), (0, 1, 0, 3)]" and x = 1 and d = 0
        and ?x1.0 = 0 and ?x2.0 = 1 and ?x3.0 = 0 and ?x4.0 = 1]
  obtain kept where k: "check_metric [(1, 0, 0, 3), (0, 1, 0, 3)] (Fin 1) 0 ''precision'' =
      Inr kept" "(0, 1, 0, 3) \<notin> set kept"
    and csv: "\<not> check_metric_csv (double_of_int 0) (double_of_int 1) (double_of_int 0)
      (double_of_int 3) (Fin 0) (Fin 1) (Fin 0) (Fin 1) 0"
    by blast
  from k(1) [unfolded ev] have "kept = [(1, 0, 0, 3)]" by simp
  then show ?thesis using den ev k(2) csv by blast
qed

section \<open>Unconstrained targets\<close>

text \<open>
  Claim C1 does not hold of \<^verbatim>\<open>reverse_engineer.cpp\<close>. Its \<^verbatim>\<open>check_metric\<close> clears
  \<^verbatim>\<open>meets_criteria\<close> when a target is \<^verbatim>\<open>-1\<close> (the test is
  \<^verbatim>\<open>... != target || target == -1\<close>), so the matrix (10,0,5,5), whose sensitivity is
  the one finite target 1, is rejected, and the run for class sizes 10 and 10, two
  decimal places and accuracy 0.75 writes no row. The other file skips the filter of
  an unconstrained target and keeps the matrix.
\<close>

theorem unconstrained_target_rejects:
  "d_eq (metric_value ''sensitivity'' 2 (10, 0, 5, 5)) (Fin 1) \<and>
   \<not> check_metric_csv (double_of_int 10) (double_of_int 0) (double_of_int 5)
       (double_of_int 5) (Fin 1) unconstrained unconstrained unconstrained 2 \<and>
   reverse_engineer_confusion_matrices_csv 10 10 2 (Fin (3 / 4))
     (Fin 1) unconstrained unconstrained unconstrained = Inr [] \<and>
   reverse_engineer_confusion_matrices 10 10 2 (Fin (3 / 4))
     (Fin 1) unconstrained unconstrained unconstrained = Inr [(10, 0, 5, 5)]"
  by code_simp

section \<open>The two programs compared\<close>

text \<open>
  Claim C8 does not hold of the code. For class sizes 10 and 10, two decimal places,
  accuracy 0.75, sensitivity 0.8 and the other three targets unconstrained,
  \<^verbatim>\<open>reverse_engineer_confusion_matrix.cpp\<close> ends with the matrix (8,2,3,7) and
  \<^verbatim>\<open>reverse_engineer.cpp\<close> writes no row. The programs agree when all four optional
  targets are given (lemma \<open>pipelines_agree_when_constrained\<close>).
\<close>

theorem pipelines_differ:
  "reverse_engineer_confusion_matrices 10 10 2 (Fin (3 / 4))
     (Fin (4 / 5)) unconstrained unconstrained unconstrained = Inr [(8, 2, 3, 7)] \<and>
   reverse_engineer_confusion_matrices_csv 10 10 2 (Fin (3 / 4))
     (Fin (4 / 5)) unconstrained unconstrained unconstrained = Inr []"
  by code_simp

end
